theory Spec2Isabelle
  imports Complex_Main "HOL-Library.List_Lexorder"
begin

section \<open>Text cleaning: \<open>preprocess_newsgroup_row\<close>\<close>

text \<open>
  A Python \<open>str\<close> is a sequence of Unicode code points, and \<open>len\<close> and slicing
  count code points. A text is therefore a list of code points, each a natural number.
\<close>

type_synonym pystr = "nat list"

definition AT :: nat where
  "AT = 64"

definition DOT :: nat where
  "DOT = 46"

definition DASH :: nat where
  "DASH = 45"

definition NEWLINE :: nat where
  "NEWLINE = 10"

text \<open>The four code points of the text \<open>None\<close>, which is how an f-string renders \<open>None\<close>.\<close>

definition NONE_TEXT :: pystr where
  "NONE_TEXT = [78, 111, 110, 101]"

text \<open>
  The class \<open>\w\<close> of a Python 3 \<open>str\<close> pattern: the ASCII letters, the ASCII digits
  and the underscore, and beyond ASCII whatever Unicode calls alphanumeric. The Unicode
  table is not part of the repository, so it is the parameter \<open>alnum\<close>, consulted only
  for code points from 128 on.
\<close>

definition is_word :: "(nat \<Rightarrow> bool) \<Rightarrow> nat \<Rightarrow> bool" where
  "is_word alnum c =
     (if c < 128
      then (48 \<le> c \<and> c \<le> 57) \<or> (65 \<le> c \<and> c \<le> 90) \<or> (97 \<le> c \<and> c \<le> 122) \<or> c = 95
      else alnum c)"

text \<open>The character class \<open>[\w\.-]\<close> of the pattern.\<close>

definition in_class :: "(nat \<Rightarrow> bool) \<Rightarrow> nat \<Rightarrow> bool" where
  "in_class alnum c = (is_word alnum c \<or> c = DOT \<or> c = DASH)"

text \<open>
  One attempt of the regular expression engine to match \<open>[\w\.-]+@[\w\.-]+\<close> at the
  start of a text; the result is the text left after the match. Both \<open>+\<close> are greedy:
  the first takes the longest run of class characters, and giving characters back cannot
  help, because the next pattern item is \<open>@\<close> and a character given back is a class
  character; the second is the last item of the pattern and keeps its longest run.
\<close>

definition match_at :: "(nat \<Rightarrow> bool) \<Rightarrow> pystr \<Rightarrow> pystr option" where
  "match_at alnum t =
     (if takeWhile (in_class alnum) t = [] then None
      else (case dropWhile (in_class alnum) t of
              [] \<Rightarrow> None
            | c # r \<Rightarrow>
                if c = AT \<and> takeWhile (in_class alnum) r \<noteq> []
                then Some (dropWhile (in_class alnum) r)
                else None))"

lemma match_at_shorter: "match_at alnum t = Some r \<Longrightarrow> length r < length t"
proof -
  assume m: "match_at alnum t = Some r"
  then obtain c r' where d: "dropWhile (in_class alnum) t = c # r'"
    and r: "r = dropWhile (in_class alnum) r'"
    by (auto simp: match_at_def split: if_splits list.splits)
  have "length r \<le> length r'"
    using r by (simp add: length_dropWhile_le)
  moreover have "length (c # r') \<le> length t"
    using d length_dropWhile_le [of "in_class alnum" t] by simp
  ultimately show ?thesis by simp
qed

text \<open>
  \<open>re.sub(pattern, "", text)\<close>: the engine looks for the leftmost match from the
  current position, drops it, and goes on from its end; a position where no match
  starts keeps its character.
\<close>

function re_sub :: "(nat \<Rightarrow> bool) \<Rightarrow> pystr \<Rightarrow> pystr" where
  "re_sub alnum [] = []"
| "re_sub alnum (c # t) =
     (case match_at alnum (c # t) of
        Some r \<Rightarrow> re_sub alnum r
      | None \<Rightarrow> c # re_sub alnum t)"
  by pat_completeness auto
termination
  by (relation "measure (\<lambda>(alnum, t). length t)") (auto dest: match_at_shorter)

text \<open>
  What \<open>email.message_from_string\<close> gives the function: the value of
  \<open>msg['Subject']\<close> (\<open>None\<close> when the header is absent) and the text that
  \<open>msg.get_payload()\<close> is rendered as. The parser belongs to the standard library, so
  it is a parameter of the model.
\<close>

record message =
  Subject :: "pystr option"
  payload :: pystr

definition format_subject :: "pystr option \<Rightarrow> pystr" where
  "format_subject s = (case s of None \<Rightarrow> NONE_TEXT | Some v \<Rightarrow> v)"

definition preprocess_newsgroup_row ::
  "(pystr \<Rightarrow> message) \<Rightarrow> (nat \<Rightarrow> bool) \<Rightarrow> pystr \<Rightarrow> pystr" where
  "preprocess_newsgroup_row message_from_string alnum data =
     (let msg = message_from_string data;
          text1 = format_subject (Subject msg) @ [NEWLINE, NEWLINE] @ payload msg;
          text2 = re_sub alnum text1
      in take 5000 text2)"

text \<open>
  An email-like substring, as the pattern describes it: one or more class characters,
  an \<open>@\<close>, one or more class characters, anywhere in the text.
\<close>

definition email_like :: "(nat \<Rightarrow> bool) \<Rightarrow> pystr \<Rightarrow> bool" where
  "email_like alnum t =
     (\<exists>pre u v post. t = pre @ u @ [AT] @ v @ post \<and> u \<noteq> [] \<and> v \<noteq> [] \<and>
        list_all (in_class alnum) u \<and> list_all (in_class alnum) v)"

text \<open>The same, as a scan for a class character, an \<open>@\<close> and a class character in a row.\<close>

fun has_email :: "(nat \<Rightarrow> bool) \<Rightarrow> pystr \<Rightarrow> bool" where
  "has_email alnum (a # b # c # t) =
     ((in_class alnum a \<and> b = AT \<and> in_class alnum c) \<or> has_email alnum (b # c # t))"
| "has_email alnum t = False"

subsection \<open>Redaction leaves no address behind\<close>

lemma AT_not_in_class: "\<not> in_class alnum AT"
  by (simp add: in_class_def is_word_def AT_def DOT_def DASH_def)

lemma match_at_not_class: "\<not> in_class alnum c \<Longrightarrow> match_at alnum (c # t) = None"
  by (simp add: match_at_def)

lemma match_at_class_Cons:
  "in_class alnum c \<Longrightarrow> in_class alnum e \<Longrightarrow> match_at alnum (c # e # t) = match_at alnum (e # t)"
  by (simp add: match_at_def)

text \<open>What follows a kept class character is never an @ and a class character.\<close>

lemma no_email_at_head:
  assumes c: "in_class alnum c" and m: "match_at alnum (c # t) = None"
  shows "\<not> (\<exists>b r. re_sub alnum t = AT # b # r \<and> in_class alnum b)"
proof (cases t)
  case Nil
  then show ?thesis by simp
next
  case (Cons e t')
  show ?thesis
  proof (cases "in_class alnum e")
    case True
    then have "match_at alnum (e # t') = None"
      using m c Cons by (simp add: match_at_class_Cons)
    then have "re_sub alnum t = e # re_sub alnum t'"
      using Cons by simp
    moreover have "e \<noteq> AT"
      using True AT_not_in_class by auto
    ultimately show ?thesis by simp
  next
    case False
    then have r: "re_sub alnum t = e # re_sub alnum t'"
      using Cons by (simp add: match_at_not_class)
    show ?thesis
    proof (cases "e = AT")
      case False
      then show ?thesis using r by simp
    next
      case True
      have nt: "takeWhile (in_class alnum) t' = []"
        using m c Cons True AT_not_in_class [of alnum]
        by (simp add: match_at_def split: if_splits)
      have "\<not> (\<exists>b r. re_sub alnum t' = b # r \<and> in_class alnum b)"
      proof (cases t')
        case Nil
        then show ?thesis by simp
      next
        case (Cons d t'')
        then have "\<not> in_class alnum d"
          using nt by (simp split: if_splits)
        then show ?thesis
          using Cons by (simp add: match_at_not_class)
      qed
      then show ?thesis using r by simp
    qed
  qed
qed

lemma has_email_Cons:
  "has_email alnum (a # t) =
     ((in_class alnum a \<and> (\<exists>b r. t = AT # b # r \<and> in_class alnum b)) \<or> has_email alnum t)"
proof (cases t)
  case Nil
  then show ?thesis by simp
next
  case (Cons b t')
  then show ?thesis by (cases t') auto
qed

lemma re_sub_no_email: "\<not> has_email alnum (re_sub alnum t)"
proof (induction alnum t rule: re_sub.induct)
  case (1 alnum)
  then show ?case by simp
next
  case (2 alnum c t)
  show ?case
  proof (cases "match_at alnum (c # t)")
    case (Some r)
    then show ?thesis using 2 by simp
  next
    case None
    then have ih: "\<not> has_email alnum (re_sub alnum t)"
      using 2 by simp
    have "\<not> (in_class alnum c \<and> (\<exists>b r. re_sub alnum t = AT # b # r \<and> in_class alnum b))"
      using no_email_at_head [of alnum c t] None by blast
    then show ?thesis
      using None ih by (simp add: has_email_Cons)
  qed
qed

lemma has_email_take: "has_email alnum (take n t) \<Longrightarrow> has_email alnum t"
proof (induction t arbitrary: n)
  case Nil
  then show ?case by simp
next
  case (Cons a t)
  show ?case
  proof (cases n)
    case 0
    then show ?thesis using Cons.prems by simp
  next
    case (Suc m)
    then have h: "has_email alnum (a # take m t)"
      using Cons.prems by simp
    then consider
      (here) "in_class alnum a" "\<exists>b r. take m t = AT # b # r \<and> in_class alnum b"
      | (later) "has_email alnum (take m t)"
      by (auto simp: has_email_Cons)
    then show ?thesis
    proof cases
      case here
      then obtain b r where tk: "take m t = AT # b # r" and b: "in_class alnum b"
        by blast
      have "t = take m t @ drop m t"
        by simp
      then obtain r' where "t = AT # b # r'"
        using tk by (metis append_Cons)
      then show ?thesis
        using here(1) b by (simp add: has_email_Cons)
    next
      case later
      then show ?thesis
        using Cons.IH by (simp add: has_email_Cons)
    qed
  qed
qed

lemma has_email_append: "in_class alnum a \<Longrightarrow> in_class alnum b \<Longrightarrow> has_email alnum (p @ a # AT # b # q)"
  by (induction p) (auto simp: has_email_Cons)

lemma email_like_has_email: "email_like alnum t \<Longrightarrow> has_email alnum t"
proof -
  assume "email_like alnum t"
  then obtain pre u v post where t: "t = pre @ u @ [AT] @ v @ post"
    and u: "u \<noteq> []" and v: "v \<noteq> []"
    and cu: "list_all (in_class alnum) u" and cv: "list_all (in_class alnum) v"
    by (auto simp: email_like_def)
  obtain u' a where u': "u = u' @ [a]"
    using u by (metis rev_exhaust)
  obtain b v' where v': "v = b # v'"
    using v by (cases v) auto
  have "in_class alnum a" "in_class alnum b"
    using cu cv u' v' by simp_all
  then have "has_email alnum ((pre @ u') @ a # AT # b # (v' @ post))"
    by (rule has_email_append)
  then show ?thesis
    using t u' v' by simp
qed

text \<open>
  Claim C7. For every raw document, the text that \<open>preprocess_newsgroup_row\<close> returns
  has no email-like substring: nowhere in it do one or more word, dot or dash characters,
  an \<open>@\<close>, and one or more word, dot or dash characters follow one another. This holds
  whatever the parser made of the document and whatever Unicode counts as alphanumeric.
\<close>

theorem preprocess_newsgroup_row_no_email:
  "\<not> email_like alnum (preprocess_newsgroup_row message_from_string alnum data)"
proof
  assume "email_like alnum (preprocess_newsgroup_row message_from_string alnum data)"
  then have "has_email alnum (preprocess_newsgroup_row message_from_string alnum data)"
    by (rule email_like_has_email)
  then have "has_email alnum
      (re_sub alnum (format_subject (Subject (message_from_string data)) @
         [NEWLINE, NEWLINE] @ payload (message_from_string data)))"
    unfolding preprocess_newsgroup_row_def Let_def by (rule has_email_take)
  then show False
    using re_sub_no_email by blast
qed

text \<open>
  Claim C10. For every raw document, the text that \<open>preprocess_newsgroup_row\<close> returns
  has at most 5000 characters.
\<close>

theorem preprocess_newsgroup_row_length:
  "length (preprocess_newsgroup_row message_from_string alnum data) \<le> 5000"
  by (simp add: preprocess_newsgroup_row_def Let_def)

section \<open>The classifier: \<open>NewsGroupClassifier\<close>\<close>

text \<open>
  Tensors hold 32-bit floats, and what PyTorch computes on them (with its rounding, its
  infinities and its order of summation) is not part of the repository. The type of a
  tensor entry is therefore a type variable \<open>'f\<close>, and the PyTorch functions the
  notebook relies on are parameters, gathered in one record. A matrix is the list of its
  rows; a batch of inputs is a matrix with one row for each sample.
\<close>

type_synonym 'f vec = "'f list"

type_synonym 'f mat = "'f list list"

datatype error =
  ValueError | NameError | ZeroDivisionError | IndexError | RuntimeError | AttributeError | ReError

text \<open>
  \<open>F_linear\<close> is \<open>torch.nn.functional.linear(input, weight, bias)\<close> on a batch whose
  rows have the width the weight expects, \<open>F_relu\<close> is the rectifier on a batch, and
  \<open>max_dim1\<close> is the index part of \<open>torch.max(outputs, 1)\<close>, which raises on a batch
  without columns.
\<close>

record 'f torch =
  F_linear :: "'f mat \<Rightarrow> 'f mat \<Rightarrow> 'f vec \<Rightarrow> 'f mat"
  F_relu :: "'f mat \<Rightarrow> 'f mat"
  max_dim1 :: "'f mat \<Rightarrow> error + nat list"

text \<open>
  The two kinds of module that the classifier puts into its \<open>nn.Sequential\<close>. A linear
  layer knows its \<open>in_features\<close> and \<open>out_features\<close> besides its weight and bias.
\<close>

datatype 'f layer = Linear nat nat "'f mat" "'f vec" | ReLU

text \<open>
  The forward pass of one module on a batch. \<open>nn.Linear\<close> raises a \<open>RuntimeError\<close> when
  the rows of the batch do not have \<open>in_features\<close> entries.
\<close>

fun apply_layer :: "'f torch \<Rightarrow> 'f layer \<Rightarrow> 'f mat \<Rightarrow> error + 'f mat" where
  "apply_layer T (Linear in_features out_features W b) X =
     (if list_all (\<lambda>x. length x = in_features) X then Inr (F_linear T X W b)
      else Inl RuntimeError)"
| "apply_layer T ReLU X = Inr (F_relu T X)"

text \<open>\<open>nn.Sequential\<close> feeds the input through its modules in order.\<close>

fun sequential :: "'f torch \<Rightarrow> 'f layer list \<Rightarrow> 'f mat \<Rightarrow> error + 'f mat" where
  "sequential T [] X = Inr X"
| "sequential T (l # layers) X =
     (case apply_layer T l X of Inl e \<Rightarrow> Inl e | Inr Y \<Rightarrow> sequential T layers Y)"

text \<open>
  The module object: the \<open>nn.Sequential\<close> it builds in \<open>__init__\<close>, and the mode flag
  that every \<open>nn.Module\<close> carries and that \<open>train()\<close> and \<open>eval()\<close> set.
\<close>

record 'f classifier =
  model :: "'f layer list"
  training :: bool

text \<open>
  \<open>__init__\<close>. PyTorch draws the initial weights at random; they are arguments here
  (\<open>W1\<close>, \<open>b1\<close> of the first linear layer, \<open>W2\<close>, \<open>b2\<close> of the second). A new module
  is in training mode.
\<close>

definition NewsGroupClassifier ::
  "nat \<Rightarrow> nat \<Rightarrow> nat \<Rightarrow> 'f mat \<Rightarrow> 'f vec \<Rightarrow> 'f mat \<Rightarrow> 'f vec \<Rightarrow> 'f classifier" where
  "NewsGroupClassifier input_size hidden_size num_classes W1 b1 W2 b2 =
     \<lparr>model = [Linear input_size hidden_size W1 b1, ReLU, Linear hidden_size num_classes W2 b2],
      training = True\<rparr>"

definition forward :: "'f torch \<Rightarrow> 'f classifier \<Rightarrow> 'f mat \<Rightarrow> error + 'f mat" where
  "forward T self X = sequential T (model self) X"

text \<open>
  Calling the module, with the module passed through: the call returns the outputs (or
  raises), and the forward pass of linear layers and rectifiers only reads the weights,
  so the module comes back as it went in.
\<close>

definition call :: "'f torch \<Rightarrow> 'f classifier \<Rightarrow> 'f mat \<Rightarrow> (error + 'f mat) \<times> 'f classifier" where
  "call T self X = (forward T self X, self)"

definition eval_mode :: "'f classifier \<Rightarrow> 'f classifier" where
  "eval_mode self = self\<lparr>training := False\<rparr>"

definition train_mode :: "'f classifier \<Rightarrow> 'f classifier" where
  "train_mode self = self\<lparr>training := True\<rparr>"

subsection \<open>Evaluation on a data loader: \<open>evaluate\<close>\<close>

text \<open>
  A sample is what \<open>NewsGroupDataset.__getitem__\<close> returns, an embedding and its label;
  a batch is the list of samples the \<open>DataLoader\<close> collates, and a loader the list of
  its batches.

  The loss criterion is whatever callable the caller passes. It is given the outputs and
  the labels of a batch and returns a number (what \<open>loss.item()\<close> then reads) or raises;
  being arbitrary Python, it can also reach the module and change it, so it takes the
  module and hands it back.
\<close>

type_synonym 'f sample = "'f vec \<times> nat"

type_synonym 'f batch = "'f sample list"

type_synonym 'f criterion =
  "'f mat \<Rightarrow> nat list \<Rightarrow> 'f classifier \<Rightarrow> (error + real) \<times> 'f classifier"

text \<open>\<open>(predicted == labels).sum().item()\<close>.\<close>

definition count_correct :: "nat list \<Rightarrow> nat list \<Rightarrow> nat" where
  "count_correct predicted labels = length (filter (\<lambda>(p, l). p = l) (zip predicted labels))"

text \<open>
  The loop of \<open>evaluate\<close> over the batches, with its three running totals
  \<open>total_loss\<close>, \<open>correct\<close> and \<open>total\<close> (here \<open>total_n\<close>). The module is handed from
  each call to the next, and comes out as the last call left it.
\<close>

fun evaluate_batches ::
  "'f torch \<Rightarrow> 'f criterion \<Rightarrow> 'f batch list \<Rightarrow> real \<times> nat \<times> nat \<Rightarrow> 'f classifier \<Rightarrow>
     (error + real \<times> nat \<times> nat) \<times> 'f classifier" where
  "evaluate_batches T crit [] totals m = (Inr totals, m)"
| "evaluate_batches T crit (b # bs) (total_loss, correct, total_n) m =
     (let (res, m1) = call T m (map fst b)
      in (case res of
            Inl e \<Rightarrow> (Inl e, m1)
          | Inr outputs \<Rightarrow>
              (let (lres, m2) = crit outputs (map snd b) m1
               in (case lres of
                     Inl e \<Rightarrow> (Inl e, m2)
                   | Inr loss \<Rightarrow>
                       (case max_dim1 T outputs of
                          Inl e \<Rightarrow> (Inl e, m2)
                        | Inr predicted \<Rightarrow>
                            evaluate_batches T crit bs
                              (total_loss + loss,
                               correct + count_correct predicted (map snd b),
                               total_n + length b)
                              m2)))))"

text \<open>
  \<open>evaluate\<close> switches the module to evaluation mode, runs the loop and returns the
  average loss and the accuracy, or raises. Both divisions raise on a zero divisor, the
  first one on a loader without batches.
\<close>

definition evaluate ::
  "'f torch \<Rightarrow> 'f classifier \<Rightarrow> 'f batch list \<Rightarrow> 'f criterion \<Rightarrow>
     (error + real \<times> real) \<times> 'f classifier" where
  "evaluate T m test_loader crit =
     (let (res, m') = evaluate_batches T crit test_loader (0, 0, 0) (eval_mode m)
      in (case res of
            Inl e \<Rightarrow> Inl e
          | Inr (total_loss, correct, total_n) \<Rightarrow>
              if length test_loader = 0 then Inl ZeroDivisionError
              else if total_n = 0 then Inl ZeroDivisionError
              else Inr (total_loss / real (length test_loader), real correct / real total_n),
          m'))"

section \<open>Balanced sampling: \<open>sample_data\<close>\<close>

text \<open>
  A row of the frame that \<open>preprocess_newsgroup_data\<close> builds, with its three columns,
  and a row of the frame that \<open>sample_data\<close> returns, which has the column
  \<open>Encoded Label\<close> as well. A frame is the list of its rows, in order.
\<close>

record row =
  Text :: pystr
  Label :: int
  Class_Name :: pystr

record encoded_row = row +
  Encoded_Label :: int

text \<open>
  The random generator behind \<open>DataFrame.sample\<close> is not part of the repository. Its
  state is the list of the numbers it will still produce; a generator that has run dry
  produces zeros.
\<close>

type_synonym rng = "nat list"

fun next_random :: "rng \<Rightarrow> nat \<times> rng" where
  "next_random [] = (0, [])"
| "next_random (r # rs) = (r, rs)"

text \<open>
  Drawing \<open>k\<close> rows without replacement: each draw picks one of the rows that are
  left, at the position the generator says, and takes it out. Every choice of \<open>k\<close> rows
  in every order is the result for some generator state.
\<close>

fun draw :: "rng \<Rightarrow> 'a list \<Rightarrow> nat \<Rightarrow> 'a list \<times> rng" where
  "draw g xs 0 = ([], g)"
| "draw g [] (Suc k) = ([], g)"
| "draw g (x # xs) (Suc k) =
     (let (r, g') = next_random g;
          i = r mod length (x # xs);
          (ys, g'') = draw g' (take i (x # xs) @ drop (Suc i) (x # xs)) k
      in ((x # xs) ! i # ys, g''))"

text \<open>
  \<open>x.sample(num_samples)\<close>, without replacement as is the default: pandas raises a
  \<open>ValueError\<close> for a negative number and for a number larger than the population.
\<close>

definition sample :: "rng \<Rightarrow> 'a list \<Rightarrow> int \<Rightarrow> (error + 'a list) \<times> rng" where
  "sample g x n =
     (if n < 0 then (Inl ValueError, g)
      else if int (length x) < n then (Inl ValueError, g)
      else (let (ys, g') = draw g x (nat n) in (Inr ys, g')))"

text \<open>
  \<open>df.groupby("Label")\<close>: one group for each label that occurs, in ascending order of
  the labels, each with its rows in the order of the frame.
\<close>

definition group_keys :: "row list \<Rightarrow> int list" where
  "group_keys df = sort (remdups (map Label df))"

definition group_of :: "row list \<Rightarrow> int \<Rightarrow> row list" where
  "group_of df l = filter (\<lambda>r. Label r = l) df"

definition groupby_Label :: "row list \<Rightarrow> row list list" where
  "groupby_Label df = map (group_of df) (group_keys df)"

text \<open>
  \<open>.apply(lambda x: x.sample(num_samples))\<close> samples group after group and glues the
  results together; an exception in one group ends the whole call.
\<close>

fun apply_sample :: "rng \<Rightarrow> row list list \<Rightarrow> int \<Rightarrow> error + row list" where
  "apply_sample g [] n = Inr []"
| "apply_sample g (x # groups) n =
     (case sample g x n of
        (Inl e, g') \<Rightarrow> Inl e
      | (Inr ys, g') \<Rightarrow>
          (case apply_sample g' groups n of
             Inl e \<Rightarrow> Inl e
           | Inr rest \<Rightarrow> Inr (ys @ rest)))"

text \<open>
  \<open>astype("category")\<close> takes the distinct class names of the frame in sorted order
  as the categories (Python compares strings code point by code point, which is the
  lexicographic order of the lists), and \<open>cat.codes\<close> is the position of each value
  among them.
\<close>

definition categories :: "row list \<Rightarrow> pystr list" where
  "categories df = sort (remdups (map Class_Name df))"

definition code_of :: "pystr list \<Rightarrow> pystr \<Rightarrow> int" where
  "code_of cats v = int (length (takeWhile (\<lambda>c. c \<noteq> v) cats))"

text \<open>
  \<open>Series.str.contains\<close> compiles its argument as a regular expression, which raises
  \<open>re.error\<close> for a text that is none, and then searches every value of the column. The
  compiler belongs to the standard library: it is the parameter \<open>compile\<close>, which gives
  either the error or the search as a test on texts.
\<close>

type_synonym regex_compiler = "pystr \<Rightarrow> error + (pystr \<Rightarrow> bool)"

text \<open>
  \<open>sample_data\<close>. On a frame without rows, as \<open>preprocess_newsgroup_data\<close> builds it
  from an empty dataset, the column \<open>Class Name\<close> holds no strings and the \<open>.str\<close>
  accessor raises an \<open>AttributeError\<close>; this comes after the sampling, which has no group
  to work on, and before the pattern is looked at.
\<close>

definition sample_data ::
  "regex_compiler \<Rightarrow> rng \<Rightarrow> row list \<Rightarrow> int \<Rightarrow> pystr \<Rightarrow> error + encoded_row list" where
  "sample_data compile g df num_samples classes_to_keep =
     (case apply_sample g (groupby_Label df) num_samples of
        Inl e \<Rightarrow> Inl e
      | Inr sampled \<Rightarrow>
          if df = [] then Inl AttributeError
          else (case compile classes_to_keep of
                  Inl e \<Rightarrow> Inl e
                | Inr matches \<Rightarrow>
                    (let kept = filter (\<lambda>r. matches (Class_Name r)) sampled;
                         cats = categories kept
                     in Inr (map (\<lambda>r. \<lparr>Text = Text r, Label = Label r,
                                        Class_Name = Class_Name r,
                                        Encoded_Label = code_of cats (Class_Name r)\<rparr>) kept))))"

text \<open>
  A stand-in for the compiler, for the examples only; the theorems are about every
  compiler. A pattern made of ASCII letters, digits and underscores only, such as the
  notebook's \<open>sci\<close>, has no metacharacter: it compiles, and the search is the plain test
  for a substring. The stand-in refuses every other pattern. That is what the real
  compiler does with a lone opening parenthesis, the one such pattern the examples use;
  it is not what the real compiler does with a pattern whose metacharacters are well
  formed, and no example uses one.
\<close>

fun starts_with :: "pystr \<Rightarrow> pystr \<Rightarrow> bool" where
  "starts_with s [] = True"
| "starts_with [] (p # ps) = False"
| "starts_with (c # s) (p # ps) = (c = p \<and> starts_with s ps)"

fun str_contains :: "pystr \<Rightarrow> pystr \<Rightarrow> bool" where
  "str_contains [] pat = starts_with [] pat"
| "str_contains (c # s) pat = (starts_with (c # s) pat \<or> str_contains s pat)"

definition compile_plain :: regex_compiler where
  "compile_plain pat =
     (if list_all (is_word (\<lambda>c. False)) pat then Inr (\<lambda>s. str_contains s pat)
      else Inl ReError)"

text \<open>
  The classes the caller asks for: the distinct class names of the input frame that
  pass the test, in sorted order.
\<close>

definition retained_classes :: "(pystr \<Rightarrow> bool) \<Rightarrow> row list \<Rightarrow> pystr list" where
  "retained_classes matches df = sort (remdups (filter matches (map Class_Name df)))"

text \<open>
  A frame in which the two columns name the same classes: two rows share their label
  exactly when they share their class name.
\<close>

definition labels_match_names :: "row list \<Rightarrow> bool" where
  "labels_match_names df =
     (\<forall>r \<in> set df. \<forall>r' \<in> set df. (Label r = Label r') = (Class_Name r = Class_Name r'))"

definition enough_rows :: "row list \<Rightarrow> int \<Rightarrow> bool" where
  "enough_rows df n = (\<forall>l \<in> set (map Label df). n \<le> int (length (group_of df l)))"

section \<open>Training: \<open>train_epoch\<close> and the epoch loop\<close>

text \<open>
  \<open>loss.backward()\<close> followed by \<open>optimizer.step()\<close> replaces the parameters of the
  module by new ones, computed from the state of the optimizer, the current parameters
  and the batch. Automatic differentiation and Adam belong to PyTorch; the update is the
  parameter \<open>step\<close>, and \<open>'o\<close> is the type of the optimizer's state.
\<close>

type_synonym ('f, 'o) optimizer_step =
  "'o \<Rightarrow> 'f layer list \<Rightarrow> 'f batch \<Rightarrow> 'o \<times> 'f layer list"

text \<open>
  The loop of \<open>train_epoch\<close> over the batches. The statistics of a batch come from the
  outputs computed before the update. The module and the optimizer are passed through,
  as they are at the moment the loop ends or raises.
\<close>

fun train_batches ::
  "'f torch \<Rightarrow> 'f criterion \<Rightarrow> ('f, 'o) optimizer_step \<Rightarrow> 'f batch list \<Rightarrow> real \<times> nat \<times> nat \<Rightarrow>
     'f classifier \<times> 'o \<Rightarrow> (error + real \<times> nat \<times> nat) \<times> 'f classifier \<times> 'o" where
  "train_batches T crit step [] totals (m, ost) = (Inr totals, m, ost)"
| "train_batches T crit step (b # bs) (total_loss, correct, total_n) (m, ost) =
     (let (res, m1) = call T m (map fst b)
      in (case res of
            Inl e \<Rightarrow> (Inl e, m1, ost)
          | Inr outputs \<Rightarrow>
              (let (lres, m2) = crit outputs (map snd b) m1
               in (case lres of
                     Inl e \<Rightarrow> (Inl e, m2, ost)
                   | Inr loss \<Rightarrow>
                       (let (ost', ps) = step ost (model m2) b;
                            m3 = m2\<lparr>model := ps\<rparr>
                        in (case max_dim1 T outputs of
                              Inl e \<Rightarrow> (Inl e, m3, ost')
                            | Inr predicted \<Rightarrow>
                                train_batches T crit step bs
                                  (total_loss + loss,
                                   correct + count_correct predicted (map snd b),
                                   total_n + length b)
                                  (m3, ost')))))))"

definition train_epoch ::
  "'f torch \<Rightarrow> 'f classifier \<Rightarrow> 'f batch list \<Rightarrow> 'f criterion \<Rightarrow> ('f, 'o) optimizer_step \<Rightarrow> 'o \<Rightarrow>
     (error + real \<times> real) \<times> 'f classifier \<times> 'o" where
  "train_epoch T m train_loader crit step ost =
     (let (res, m', ost') =
            train_batches T crit step train_loader (0, 0, 0) (train_mode m, ost)
      in (case res of
            Inl e \<Rightarrow> Inl e
          | Inr (total_loss, correct, total_n) \<Rightarrow>
              if length train_loader = 0 then Inl ZeroDivisionError
              else if total_n = 0 then Inl ZeroDivisionError
              else Inr (total_loss / real (length train_loader), real correct / real total_n),
          m', ost'))"

subsection \<open>The state of the training cell\<close>

text \<open>
  The module is an object that the names of the notebook refer to, and the optimizer
  updates its parameter tensors in place. So the module lives in a store, at an
  address. \<open>model.state_dict()\<close> returns a dictionary whose values are the parameter
  tensors of the module themselves, sharing their storage; nothing is copied. A state
  dictionary is therefore a reference to the place the module occupies, and reading it
  shows what the parameters are at the moment of reading.
\<close>

type_synonym addr = nat

datatype state_dict = StateDict addr

definition state_dict :: "addr \<Rightarrow> state_dict" where
  "state_dict a = StateDict a"

fun read_state_dict :: "(addr \<Rightarrow> 'f classifier) \<Rightarrow> state_dict \<Rightarrow> 'f layer list" where
  "read_state_dict h (StateDict a) = model (h a)"

text \<open>
  The names the cell works with. \<open>best_model\<close> and \<open>patience\<close> are assigned only
  inside the loop, so each of them can be unbound (\<open>None\<close>). \<open>history\<close> is bookkeeping
  of the model, not a name of the notebook: the validation accuracy of every epoch that
  has run, in order.
\<close>

record ('f, 'o) cell_state =
  heap :: "addr \<Rightarrow> 'f classifier"
  optimizer :: 'o
  best_val_acc :: real
  best_model :: "state_dict option"
  patience :: "int option"
  history :: "real list"

text \<open>
  What the cell is given: PyTorch's functions, where the module \<open>model\<close> lives, the
  batches the shuffling training loader yields in each epoch, the validation loader, the
  criterion and the optimizer's update.
\<close>

record ('f, 'o) loop_config =
  kernels :: "'f torch"
  model_ref :: addr
  train_loader :: "nat \<Rightarrow> 'f batch list"
  val_loader :: "'f batch list"
  criterion :: "'f criterion"
  step :: "('f, 'o) optimizer_step"

definition NUM_EPOCHS :: nat where
  "NUM_EPOCHS = 20"

definition PATIENCE :: int where
  "PATIENCE = 5"

text \<open>The state before the loop: \<open>best_val_acc = 0\<close>, and nothing else assigned.\<close>

definition initial_state :: "(addr \<Rightarrow> 'f classifier) \<Rightarrow> 'o \<Rightarrow> ('f, 'o) cell_state" where
  "initial_state h ost =
     \<lparr>heap = h, optimizer = ost, best_val_acc = 0, best_model = None, patience = None,
      history = []\<rparr>"

datatype flow = Continue | Break

text \<open>
  The body of the loop for one epoch: train, evaluate, then compare. \<open>patience += 1\<close>
  reads the name first, which raises a \<open>NameError\<close> when it is unbound.
\<close>

definition epoch_body ::
  "('f, 'o) loop_config \<Rightarrow> nat \<Rightarrow> ('f, 'o) cell_state \<Rightarrow> error + flow \<times> ('f, 'o) cell_state" where
  "epoch_body cfg epoch s =
     (let (tr, m1, ost1) =
            train_epoch (kernels cfg) (heap s (model_ref cfg)) (train_loader cfg epoch)
              (criterion cfg) (step cfg) (optimizer s);
          s1 = s\<lparr>heap := (heap s)(model_ref cfg := m1), optimizer := ost1\<rparr>
      in (case tr of
            Inl e \<Rightarrow> Inl e
          | Inr (train_loss, train_acc) \<Rightarrow>
              (let (ev, m2) =
                     evaluate (kernels cfg) (heap s1 (model_ref cfg)) (val_loader cfg)
                       (criterion cfg);
                   s2 = s1\<lparr>heap := (heap s1)(model_ref cfg := m2)\<rparr>
               in (case ev of
                     Inl e \<Rightarrow> Inl e
                   | Inr (val_loss, val_acc) \<Rightarrow>
                       (let s3 = s2\<lparr>history := history s2 @ [val_acc]\<rparr>
                        in if best_val_acc s3 < val_acc
                           then Inr (Continue,
                                  s3\<lparr>best_val_acc := val_acc,
                                     best_model := Some (state_dict (model_ref cfg)),
                                     patience := Some 0\<rparr>)
                           else (case patience s3 of
                                   None \<Rightarrow> Inl NameError
                                 | Some p \<Rightarrow>
                                     (let s4 = s3\<lparr>patience := Some (p + 1)\<rparr>
                                      in if PATIENCE < p + 1 then Inr (Break, s4)
                                         else Inr (Continue, s4))))))))"

text \<open>\<open>for epoch in range(NUM_EPOCHS)\<close>, with its \<open>break\<close>.\<close>

fun run_epochs ::
  "('f, 'o) loop_config \<Rightarrow> nat list \<Rightarrow> ('f, 'o) cell_state \<Rightarrow> error + ('f, 'o) cell_state" where
  "run_epochs cfg [] s = Inr s"
| "run_epochs cfg (epoch # epochs) s =
     (case epoch_body cfg epoch s of
        Inl e \<Rightarrow> Inl e
      | Inr (Break, s') \<Rightarrow> Inr s'
      | Inr (Continue, s') \<Rightarrow> run_epochs cfg epochs s')"

definition training_loop ::
  "('f, 'o) loop_config \<Rightarrow> (addr \<Rightarrow> 'f classifier) \<Rightarrow> 'o \<Rightarrow> error + ('f, 'o) cell_state" where
  "training_loop cfg h ost = run_epochs cfg [0 ..< NUM_EPOCHS] (initial_state h ost)"

section \<open>Examples on small integers\<close>

text \<open>
  float32 holds every integer of magnitude below \<open>2^24\<close> exactly, and a sum or product
  whose exact value is such an integer is computed without rounding. On tensors of such
  integers, as long as every intermediate result stays in that range, PyTorch's
  functions are therefore the following functions on integers. The examples below apply
  them to the entries 0 and 1 only.
\<close>

definition dot :: "int list \<Rightarrow> int list \<Rightarrow> int" where
  "dot xs ys = sum_list (map2 (*) xs ys)"

definition integer_linear :: "int mat \<Rightarrow> int mat \<Rightarrow> int vec \<Rightarrow> int mat" where
  "integer_linear X W b = map (\<lambda>x. map2 (\<lambda>row bi. dot row x + bi) W b) X"

definition integer_relu :: "int mat \<Rightarrow> int mat" where
  "integer_relu X = map (map (max 0)) X"

fun argmax_from :: "int \<Rightarrow> nat \<Rightarrow> nat \<Rightarrow> int list \<Rightarrow> nat" where
  "argmax_from best k i [] = k"
| "argmax_from best k i (y # ys) =
     (if best < y then argmax_from y i (Suc i) ys else argmax_from best k (Suc i) ys)"

fun argmax :: "int list \<Rightarrow> nat" where
  "argmax [] = 0"
| "argmax (y # ys) = argmax_from y 0 1 ys"

definition integer_max_dim1 :: "int mat \<Rightarrow> error + nat list" where
  "integer_max_dim1 outputs =
     (if list_ex (\<lambda>row. row = []) outputs then Inl IndexError else Inr (map argmax outputs))"

definition integer_kernels :: "int torch" where
  "integer_kernels =
     \<lparr>F_linear = integer_linear, F_relu = integer_relu, max_dim1 = integer_max_dim1\<rparr>"

text \<open>
  A classifier with one input, one hidden unit and two classes, which on the input 1
  predicts class 1 when \<open>right\<close> holds and class 0 otherwise; a loader with the one
  sample (1, class 1); a criterion that reports the loss 1 and touches nothing; and a
  criterion that, besides, sets every weight and bias of the module to zero in place.
\<close>

definition one_input_layers :: "bool \<Rightarrow> int layer list" where
  "one_input_layers right =
     [Linear 1 1 [[1]] [0], ReLU, Linear 1 2 (if right then [[0], [1]] else [[1], [0]]) [0, 0]]"

definition one_sample_loader :: "int batch list" where
  "one_sample_loader = [[([1], 1)]]"

definition unit_loss :: "int criterion" where
  "unit_loss outputs labels m = (Inr 1, m)"



lemma integer_kernels_sel:
  "F_linear integer_kernels = integer_linear"
  "F_relu integer_kernels = integer_relu"
  "max_dim1 integer_kernels = integer_max_dim1"
  by (simp_all add: integer_kernels_def)

lemma one_input_forward:
  "forward integer_kernels \<lparr>model = one_input_layers right, training = t\<rparr> [[1]] =
     Inr [if right then [0, 1] else [1, 0]]"
  by (simp add: forward_def one_input_layers_def integer_kernels_sel integer_linear_def
      integer_relu_def dot_def)

lemma one_input_evaluate:
  "evaluate integer_kernels \<lparr>model = one_input_layers right, training = t\<rparr> one_sample_loader
     unit_loss =
     (Inr (1, if right then 1 else 0), \<lparr>model = one_input_layers right, training = False\<rparr>)"
  by (simp add: evaluate_def eval_mode_def call_def one_sample_loader_def one_input_forward
      unit_loss_def integer_kernels_sel integer_max_dim1_def count_correct_def)


section \<open>Properties of evaluation\<close>







section \<open>Properties of balanced sampling\<close>

text \<open>
  What the specification promises of a balanced sample: the call returns a frame with
  \<open>n\<close> rows for each retained class, whose \<open>Encoded Label\<close> column takes exactly the
  values from 0 up to the number of retained classes, each row carrying the position of
  its class name in the sorted list of the retained class names.
\<close>

definition balanced_and_encoded ::
  "regex_compiler \<Rightarrow> (pystr \<Rightarrow> bool) \<Rightarrow> rng \<Rightarrow> row list \<Rightarrow> int \<Rightarrow> pystr \<Rightarrow> bool" where
  "balanced_and_encoded compile matches g df n classes_to_keep =
     (\<exists>out. sample_data compile g df n classes_to_keep = Inr out \<and>
        length out = nat n * length (retained_classes matches df) \<and>
        Encoded_Label ` set out = int ` {0 ..< length (retained_classes matches df)} \<and>
        (\<forall>r \<in> set out. retained_classes matches df ! nat (Encoded_Label r) = Class_Name r))"

text \<open>
  Frames and patterns for the examples: \<open>SCI\<close> is the text \<open>sci\<close>, \<open>PAREN\<close> a lone
  opening parenthesis, which is no regular expression.
\<close>

definition SCI :: pystr where
  "SCI = [115, 99, 105]"

definition PAREN :: pystr where
  "PAREN = [40]"

definition frame_two_labels_one_name :: "row list" where
  "frame_two_labels_one_name =
     [\<lparr>Text = [97], Label = 0, Class_Name = [115, 99, 105]\<rparr>,
      \<lparr>Text = [98], Label = 1, Class_Name = [115, 99, 105]\<rparr>]"

definition frame_one_class :: "row list" where
  "frame_one_class = [\<lparr>Text = [97], Label = 0, Class_Name = [115, 99, 105]\<rparr>]"

definition frame_three_classes :: "row list" where
  "frame_three_classes =
     [\<lparr>Text = [97], Label = 7, Class_Name = [115, 99, 105, 46, 98]\<rparr>,
      \<lparr>Text = [98], Label = 3, Class_Name = [114, 101, 99]\<rparr>,
      \<lparr>Text = [99], Label = 7, Class_Name = [115, 99, 105, 46, 98]\<rparr>,
      \<lparr>Text = [100], Label = 9, Class_Name = [115, 99, 105, 46, 97]\<rparr>,
      \<lparr>Text = [101], Label = 3, Class_Name = [114, 101, 99]\<rparr>,
      \<lparr>Text = [102], Label = 9, Class_Name = [115, 99, 105, 46, 97]\<rparr>]"

subsection \<open>Drawing\<close>

lemma length_without: "i < length l \<Longrightarrow> length (take i l @ drop (Suc i) l) = length l - 1"
  by (simp add: min_def)

lemma draw_length: "k \<le> length xs \<Longrightarrow> length (fst (draw g xs k)) = k"
proof (induction g xs k rule: draw.induct)
  case (3 g x xs k)
  obtain r g' where n: "next_random g = (r, g')"
    by (cases "next_random g")
  let ?i = "r mod length (x # xs)"
  let ?rest = "take ?i (x # xs) @ drop (Suc ?i) (x # xs)"
  have i: "?i < length (x # xs)"
    by simp
  have "length ?rest = length xs"
    using length_without [OF i] by simp
  then have "k \<le> length ?rest"
    using "3.prems" by simp
  then have "length (fst (draw g' ?rest k)) = k"
    using "3.IH" [OF n [symmetric] refl refl] by simp
  then show ?case
    using n by (auto simp: Let_def split: prod.splits)
qed simp_all

lemma draw_subset: "set (fst (draw g xs k)) \<subseteq> set xs"
proof (induction g xs k rule: draw.induct)
  case (3 g x xs k)
  obtain r g' where n: "next_random g = (r, g')"
    by (cases "next_random g")
  let ?i = "r mod length (x # xs)"
  let ?rest = "take ?i (x # xs) @ drop (Suc ?i) (x # xs)"
  have i: "?i < length (x # xs)"
    by simp
  have "set ?rest \<subseteq> set (x # xs)"
    using set_take_subset [of ?i "x # xs"] set_drop_subset [of "Suc ?i" "x # xs"] by auto
  moreover have "set (fst (draw g' ?rest k)) \<subseteq> set ?rest"
    using "3.IH" [OF n [symmetric] refl refl] by simp
  moreover have "(x # xs) ! ?i \<in> set (x # xs)"
    using i by (rule nth_mem)
  ultimately show ?case
    using n by (auto simp: Let_def split: prod.splits)
qed simp_all

lemma sample_error: "fst (sample g x n) = Inl e \<Longrightarrow> e = ValueError"
  by (auto simp: sample_def split: if_splits prod.splits)

lemma sample_small: "int (length x) < n \<Longrightarrow> fst (sample g x n) = Inl ValueError"
  by (simp add: sample_def)

lemma sample_ok:
  assumes "sample g x n = (Inr ys, g')"
  shows "0 \<le> n \<and> length ys = nat n \<and> set ys \<subseteq> set x"
proof -
  have n: "0 \<le> n" "n \<le> int (length x)" and ys: "ys = fst (draw g x (nat n))"
    using assms by (auto simp: sample_def split: if_splits prod.splits)
  have "nat n \<le> length x"
    using n by simp
  then show ?thesis
    using n ys draw_length [of "nat n" x g] draw_subset [of g x "nat n"] by simp
qed

lemma sample_enough:
  assumes "0 \<le> n" and "n \<le> int (length x)"
  shows "\<exists>ys g'. sample g x n = (Inr ys, g')"
  using assms by (simp add: sample_def split: prod.splits)

subsection \<open>Sampling the groups\<close>

lemma apply_sample_error: "apply_sample g groups n = Inl e \<Longrightarrow> e = ValueError"
proof (induction groups arbitrary: g)
  case Nil
  then show ?case by simp
next
  case (Cons x groups)
  obtain res g' where s: "sample g x n = (res, g')"
    by (cases "sample g x n")
  show ?case
  proof (cases res)
    case (Inl e')
    then show ?thesis
      using Cons.prems s sample_error [of g x n e'] by simp
  next
    case (Inr ys)
    then show ?thesis
      using Cons.prems s Cons.IH [of g'] by (simp split: sum.splits)
  qed
qed

lemma apply_sample_small:
  assumes "\<exists>x \<in> set groups. int (length x) < n"
  shows "apply_sample g groups n = Inl ValueError"
proof (cases "apply_sample g groups n")
  case (Inl e)
  then show ?thesis
    using apply_sample_error by blast
next
  case (Inr out)
  have "\<forall>x \<in> set groups. n \<le> int (length x)"
    using Inr
  proof (induction groups arbitrary: g out)
    case Nil
    then show ?case by simp
  next
    case (Cons x groups)
    obtain res g' where s: "sample g x n = (res, g')"
      by (cases "sample g x n")
    from Cons.prems s obtain ys rest where res: "res = Inr ys"
      and rest: "apply_sample g' groups n = Inr rest"
      by (auto split: sum.splits)
    have "n \<le> int (length x)"
      using s res sample_small [of x n g] by (cases "int (length x) < n") auto
    then show ?case
      using Cons.IH [OF rest] by simp
  qed
  then show ?thesis
    using assms by force
qed


lemma apply_sample_enough:
  assumes "0 \<le> n" and "\<forall>x \<in> set groups. n \<le> int (length x)"
  shows "\<exists>out. apply_sample g groups n = Inr out"
  using assms(2)
proof (induction groups arbitrary: g)
  case Nil
  then show ?case by simp
next
  case (Cons x groups)
  obtain ys g' where s: "sample g x n = (Inr ys, g')"
    using sample_enough [OF assms(1), of x g] Cons.prems by auto
  obtain rest where "apply_sample g' groups n = Inr rest"
    using Cons.IH [of g'] Cons.prems by auto
  then show ?case
    using s by simp
qed

lemma apply_sample_groups:
  assumes "apply_sample g (map (group_of df) ks) n = Inr out" and "distinct ks"
  shows "set out \<subseteq> set df \<and>
         (\<forall>l. length (filter (\<lambda>r. Label r = l) out) = (if l \<in> set ks then nat n else 0))"
  using assms
proof (induction ks arbitrary: g out)
  case Nil
  then show ?case by simp
next
  case (Cons k ks)
  obtain res g' where s: "sample g (group_of df k) n = (res, g')"
    by (cases "sample g (group_of df k) n")
  from Cons.prems(1) s obtain ys rest where res: "res = Inr ys"
    and rest: "apply_sample g' (map (group_of df) ks) n = Inr rest"
    and out: "out = ys @ rest"
    by (auto split: sum.splits)
  have ys: "length ys = nat n" "set ys \<subseteq> set (group_of df k)"
    using sample_ok [of g "group_of df k" n ys g'] s res by simp_all
  have lab: "\<forall>r \<in> set ys. Label r = k" and sub: "set ys \<subseteq> set df"
    using ys(2) by (auto simp: group_of_def)
  have f: "filter (\<lambda>r. Label r = l) ys = (if l = k then ys else [])" for l
    using lab by (auto simp: filter_empty_conv filter_id_conv)
  have ih: "set rest \<subseteq> set df"
    "\<And>l. length (filter (\<lambda>r. Label r = l) rest) = (if l \<in> set ks then nat n else 0)"
    using Cons.IH [OF rest] Cons.prems(2) by simp_all
  have "k \<notin> set ks"
    using Cons.prems(2) by simp
  then have "length (filter (\<lambda>r. Label r = l) out) = (if l \<in> set (k # ks) then nat n else 0)" for l
    using out f [of l] ih(2) [of l] ys(1) by auto
  then show ?case
    using out sub ih(1) by simp
qed

lemma sum_list_indicator:
  "distinct cs \<Longrightarrow> (\<Sum>c\<leftarrow>cs. if v = c then 1 else 0) = (if v \<in> set cs then 1 else (0::nat))"
  by (induction cs) auto

lemma length_filter_by_class:
  assumes "distinct cs" and "\<forall>x \<in> set xs. P x = (f x \<in> set cs)"
  shows "length (filter P xs) = (\<Sum>c\<leftarrow>cs. length (filter (\<lambda>x. f x = c) xs))"
  using assms(2)
proof (induction xs)
  case Nil
  then show ?case by simp
next
  case (Cons x xs)
  have "(\<Sum>c\<leftarrow>cs. length (filter (\<lambda>y. f y = c) (x # xs))) =
      (\<Sum>c\<leftarrow>cs. (if f x = c then 1 else 0) + length (filter (\<lambda>y. f y = c) xs))"
    by (intro arg_cong [where f = sum_list] map_cong) auto
  also have "\<dots> = (\<Sum>c\<leftarrow>cs. if f x = c then 1 else 0) + (\<Sum>c\<leftarrow>cs. length (filter (\<lambda>y. f y = c) xs))"
    by (simp add: sum_list_addf)
  also have "\<dots> = (if f x \<in> set cs then 1 else 0) + length (filter P xs)"
    using Cons sum_list_indicator [OF assms(1), of "f x"] by simp
  also have "\<dots> = length (filter P (x # xs))"
    using Cons.prems by simp
  finally show ?case by simp
qed

lemma takeWhile_index:
  "distinct cats \<Longrightarrow> i < length cats \<Longrightarrow> length (takeWhile (\<lambda>c. c \<noteq> cats ! i) cats) = i"
proof (induction cats arbitrary: i)
  case Nil
  then show ?case by simp
next
  case (Cons a cats)
  show ?case
  proof (cases i)
    case 0
    then show ?thesis by simp
  next
    case (Suc j)
    then have "a \<noteq> cats ! j"
      using Cons.prems by auto
    then show ?thesis
      using Suc Cons by simp
  qed
qed

lemma code_of_nth: "distinct cats \<Longrightarrow> i < length cats \<Longrightarrow> code_of cats (cats ! i) = int i"
  by (simp add: code_of_def takeWhile_index)

lemma code_of_image: "distinct cats \<Longrightarrow> code_of cats ` set cats = int ` {0 ..< length cats}"
proof -
  assume d: "distinct cats"
  have "set cats = (\<lambda>i. cats ! i) ` {0 ..< length cats}"
    by (auto simp: set_conv_nth)
  then have "code_of cats ` set cats = (\<lambda>i. code_of cats (cats ! i)) ` {0 ..< length cats}"
    by (metis image_image)
  also have "\<dots> = int ` {0 ..< length cats}"
    using d by (intro image_cong) (auto simp: code_of_nth)
  finally show ?thesis .
qed

lemma code_of_lookup:
  assumes "distinct cats" and "v \<in> set cats"
  shows "cats ! nat (code_of cats v) = v"
proof -
  obtain i where "i < length cats" "cats ! i = v"
    using assms(2) by (auto simp: in_set_conv_nth)
  then show ?thesis
    using code_of_nth [OF assms(1), of i] by auto
qed


lemma group_keys_set: "set (group_keys df) = set (map Label df)"
  by (simp add: group_keys_def)

lemma group_keys_distinct: "distinct (group_keys df)"
  by (simp add: group_keys_def)

lemma retained_classes_set:
  "set (retained_classes matches df) = {c \<in> Class_Name ` set df. matches c}"
  by (auto simp: retained_classes_def)

lemma retained_classes_sorted:
  "sorted (retained_classes matches df) \<and> distinct (retained_classes matches df)"
  by (simp add: retained_classes_def)

lemma compile_plain_SCI: "compile_plain SCI = Inr (\<lambda>s. str_contains s SCI)"
  by (simp add: compile_plain_def SCI_def is_word_def)

lemma compile_plain_PAREN: "compile_plain PAREN = Inl ReError"
  by (simp add: compile_plain_def PAREN_def is_word_def)


text \<open>
  Claim C4. For every frame and every number \<open>n\<close>: if some label of the frame has
  fewer than \<open>n\<close> rows, \<open>sample_data\<close> raises (a \<open>ValueError\<close>, from the sampling of
  that group) and returns no frame, whether or not the class is one to keep and whatever
  the pattern is.
\<close>

theorem sample_data_insufficient:
  assumes "\<exists>l \<in> set (map Label df). int (length (group_of df l)) < n"
  shows "sample_data compile g df n classes_to_keep = Inl ValueError"
proof -
  from assms obtain l where l: "l \<in> set (map Label df)" "int (length (group_of df l)) < n"
    by blast
  have "group_of df l \<in> set (groupby_Label df)"
    using l(1) by (simp add: groupby_Label_def group_keys_set)
  then have "apply_sample g (groupby_Label df) n = Inl ValueError"
    using l(2) by (intro apply_sample_small) blast
  then show ?thesis
    by (simp add: sample_data_def)
qed

theorem sample_data_insufficient_witness:
  "(\<exists>l \<in> set (map Label frame_three_classes). int (length (group_of frame_three_classes l)) < 3) \<and>
   sample_data compile_plain [1, 0, 1] frame_three_classes 3 SCI = Inl ValueError"
proof -
  have h: "\<exists>l \<in> set (map Label frame_three_classes).
      int (length (group_of frame_three_classes l)) < 3"
    by (simp add: frame_three_classes_def group_of_def)
  show ?thesis
    using sample_data_insufficient [OF h] h by blast
qed

text \<open>
  Claim C1, as the code has it. For every frame with at least one row in which two rows
  share their label exactly when they share their class name, every filter string that
  compiles as a regular expression, every number \<open>n\<close> of at least one and every state of
  the random generator: if every label of the frame has at least \<open>n\<close> rows,
  \<open>sample_data\<close> returns a frame with exactly \<open>n\<close> times \<open>k\<close> rows, where \<open>k\<close> is the
  number of retained classes (the class names the compiled pattern finds a match in); its
  \<open>Encoded Label\<close> column takes exactly the values 0 to \<open>k - 1\<close>, and the value in each
  row is the position of the row's class name among the retained class names in sorted
  order.
\<close>

theorem sample_data_balanced:
  assumes wf: "labels_match_names df" and n: "0 < n" and en: "enough_rows df n"
    and ne: "df \<noteq> []" and cp: "compile pat = Inr matches"
  shows "balanced_and_encoded compile matches g df n pat"
proof -
  let ?ret = "retained_classes matches df"
  let ?keep = "\<lambda>r. matches (Class_Name r)"
  have "\<forall>x \<in> set (groupby_Label df). n \<le> int (length x)"
    using en by (auto simp: enough_rows_def groupby_Label_def group_keys_set)
  then obtain sampled where ap: "apply_sample g (groupby_Label df) n = Inr sampled"
    using apply_sample_enough [of n "groupby_Label df" g] n by auto
  have sub: "set sampled \<subseteq> set df"
    and cnt: "\<And>l. length (filter (\<lambda>r. Label r = l) sampled) =
        (if l \<in> set (map Label df) then nat n else 0)"
    using apply_sample_groups [OF ap [unfolded groupby_Label_def] group_keys_distinct]
    by (simp_all add: group_keys_set)
  define kept where "kept = filter ?keep sampled"
  define cats where "cats = categories kept"
  define out where "out = map (\<lambda>r. \<lparr>Text = Text r, Label = Label r, Class_Name = Class_Name r,
      Encoded_Label = code_of cats (Class_Name r)\<rparr>) kept"
  have res: "sample_data compile g df n pat = Inr out"
    using ne cp by (simp add: sample_data_def ap out_def cats_def kept_def Let_def)
  have per_class: "length (filter (\<lambda>r. Class_Name r = c) sampled) = nat n"
    if c: "c \<in> Class_Name ` set df" for c
  proof -
    from c obtain r0 where r0: "r0 \<in> set df" "Class_Name r0 = c"
      by auto
    have "filter (\<lambda>r. Class_Name r = c) sampled = filter (\<lambda>r. Label r = Label r0) sampled"
      using wf sub r0 by (intro filter_cong) (auto simp: labels_match_names_def)
    then show ?thesis
      using cnt [of "Label r0"] r0(1) by simp
  qed
  have keep_iff: "\<forall>r \<in> set sampled. ?keep r = (Class_Name r \<in> set ?ret)"
    using sub by (auto simp: retained_classes_set)
  have "length kept = (\<Sum>c\<leftarrow>?ret. length (filter (\<lambda>r. Class_Name r = c) sampled))"
    unfolding kept_def using retained_classes_sorted keep_iff
    by (intro length_filter_by_class) auto
  also have "\<dots> = (\<Sum>c\<leftarrow>?ret. nat n)"
    by (intro arg_cong [where f = sum_list] map_cong)
      (auto simp: per_class retained_classes_set)
  also have "\<dots> = nat n * length ?ret"
    by (simp add: sum_list_triv)
  finally have len: "length out = nat n * length ?ret"
    by (simp add: out_def)
  have "Class_Name ` set kept = set ?ret"
  proof
    show "Class_Name ` set kept \<subseteq> set ?ret"
      using sub by (auto simp: kept_def retained_classes_set)
  next
    show "set ?ret \<subseteq> Class_Name ` set kept"
    proof
      fix c assume c: "c \<in> set ?ret"
      then have "length (filter (\<lambda>r. Class_Name r = c) sampled) = nat n"
        using per_class by (simp add: retained_classes_set)
      then have "filter (\<lambda>r. Class_Name r = c) sampled \<noteq> []"
        using n by auto
      then obtain r where "r \<in> set sampled" "Class_Name r = c"
        by (auto simp: filter_empty_conv)
      then show "c \<in> Class_Name ` set kept"
        using c by (auto simp: kept_def retained_classes_set)
    qed
  qed
  then have "set cats = set ?ret"
    by (simp add: cats_def categories_def)
  moreover have "sorted cats" "distinct cats"
    by (simp_all add: cats_def categories_def)
  ultimately have cats: "cats = ?ret"
    using retained_classes_sorted [of matches df]
    by (intro sorted_distinct_set_unique) auto
  have d: "distinct cats"
    by (simp add: cats_def categories_def)
  have names: "Class_Name ` set kept = set cats"
    by (simp add: cats_def categories_def)
  have "Encoded_Label ` set out = code_of cats ` (Class_Name ` set kept)"
    by (simp add: out_def image_image)
  also have "\<dots> = int ` {0 ..< length cats}"
    using names code_of_image [OF d] by simp
  finally have img: "Encoded_Label ` set out = int ` {0 ..< length ?ret}"
    using cats by simp
  have "\<forall>r \<in> set out. ?ret ! nat (Encoded_Label r) = Class_Name r"
  proof
    fix r assume "r \<in> set out"
    then obtain r0 where r0: "r0 \<in> set kept" and r: "Class_Name r = Class_Name r0"
      "Encoded_Label r = code_of cats (Class_Name r0)"
      by (auto simp: out_def)
    have "Class_Name r0 \<in> set cats"
      using r0 names by auto
    then show "?ret ! nat (Encoded_Label r) = Class_Name r"
      using code_of_lookup [OF d] r cats by simp
  qed
  then show ?thesis
    unfolding balanced_and_encoded_def using res len img by blast
qed

theorem sample_data_balanced_witness:
  "labels_match_names frame_three_classes \<and> (0::int) < 2 \<and>
   enough_rows frame_three_classes 2 \<and> frame_three_classes \<noteq> [] \<and>
   compile_plain SCI = Inr (\<lambda>s. str_contains s SCI) \<and>
   balanced_and_encoded compile_plain (\<lambda>s. str_contains s SCI) [1, 0, 1] frame_three_classes 2 SCI"
proof -
  have w: "labels_match_names frame_three_classes"
    by (simp add: labels_match_names_def frame_three_classes_def)
  have n: "(0::int) < 2"
    by simp
  have e: "enough_rows frame_three_classes 2"
    by (simp add: enough_rows_def frame_three_classes_def group_of_def)
  have f: "frame_three_classes \<noteq> []"
    by (simp add: frame_three_classes_def)
  show ?thesis
    using sample_data_balanced [of frame_three_classes 2 compile_plain SCI
        "\<lambda>s. str_contains s SCI" "[1, 0, 1]", OF w n e f compile_plain_SCI]
      w n e f compile_plain_SCI
    by blast
qed

lemma two_labels_one_name_sampled:
  "sample_data compile_plain [] frame_two_labels_one_name 1 SCI =
    Inr [\<lparr>Text = [97], Label = 0, Class_Name = [115, 99, 105], Encoded_Label = 0\<rparr>,
         \<lparr>Text = [98], Label = 1, Class_Name = [115, 99, 105], Encoded_Label = 0\<rparr>]"
  by (simp add: sample_data_def compile_plain_def is_word_def frame_two_labels_one_name_def
      groupby_Label_def group_keys_def group_of_def sample_def SCI_def categories_def
      code_of_def Let_def)

lemma two_labels_one_name_retained:
  "retained_classes (\<lambda>s. str_contains s SCI) frame_two_labels_one_name = [SCI]"
  by (simp add: retained_classes_def frame_two_labels_one_name_def SCI_def)

lemma one_class_sampled: "sample_data compile_plain [] frame_one_class 0 SCI = Inr []"
  by (simp add: sample_data_def compile_plain_def is_word_def frame_one_class_def
      groupby_Label_def group_keys_def group_of_def sample_def SCI_def categories_def
      code_of_def Let_def)

lemma one_class_retained:
  "retained_classes (\<lambda>s. str_contains s SCI) frame_one_class = [SCI]"
  by (simp add: retained_classes_def frame_one_class_def SCI_def)

lemma empty_frame_sampled: "sample_data compile_plain [] [] 1 SCI = Inl AttributeError"
  by (simp add: sample_data_def groupby_Label_def group_keys_def)

lemma paren_sampled: "sample_data compile_plain [] frame_one_class 1 PAREN = Inl ReError"
  by (simp add: sample_data_def compile_plain_def is_word_def PAREN_def frame_one_class_def
      groupby_Label_def group_keys_def group_of_def sample_def)

text \<open>
  The claim as the specification states it, for every frame, every filter string and
  every \<open>n\<close>, fails in four ways. When two labels carry the same class name, each label is
  sampled on its own, so the one retained class gets twice \<open>n\<close> rows. When \<open>n\<close> is zero
  the result has no rows, so no value of \<open>Encoded Label\<close> occurs, though one class is
  retained. On the frame without rows, and on a filter string that is no regular
  expression, the call raises and returns no frame at all.
\<close>

theorem sample_data_counterexample:
  "enough_rows frame_two_labels_one_name 1 \<and>
   retained_classes (\<lambda>s. str_contains s SCI) frame_two_labels_one_name = [SCI] \<and>
   sample_data compile_plain [] frame_two_labels_one_name 1 SCI =
     Inr [\<lparr>Text = [97], Label = 0, Class_Name = [115, 99, 105], Encoded_Label = 0\<rparr>,
          \<lparr>Text = [98], Label = 1, Class_Name = [115, 99, 105], Encoded_Label = 0\<rparr>] \<and>
   \<not> balanced_and_encoded compile_plain (\<lambda>s. str_contains s SCI) []
        frame_two_labels_one_name 1 SCI \<and>
   enough_rows frame_one_class 0 \<and>
   labels_match_names frame_one_class \<and>
   retained_classes (\<lambda>s. str_contains s SCI) frame_one_class = [SCI] \<and>
   sample_data compile_plain [] frame_one_class 0 SCI = Inr [] \<and>
   \<not> balanced_and_encoded compile_plain (\<lambda>s. str_contains s SCI) [] frame_one_class 0 SCI \<and>
   enough_rows [] 1 \<and>
   labels_match_names [] \<and>
   sample_data compile_plain [] [] 1 SCI = Inl AttributeError \<and>
   \<not> balanced_and_encoded compile_plain (\<lambda>s. str_contains s SCI) [] [] 1 SCI \<and>
   enough_rows frame_one_class 1 \<and>
   sample_data compile_plain [] frame_one_class 1 PAREN = Inl ReError \<and>
   \<not> balanced_and_encoded compile_plain (\<lambda>s. str_contains s PAREN) [] frame_one_class 1 PAREN"
proof -
  have "enough_rows frame_two_labels_one_name 1"
    by (simp add: enough_rows_def frame_two_labels_one_name_def group_of_def)
  moreover have "\<not> balanced_and_encoded compile_plain (\<lambda>s. str_contains s SCI) []
      frame_two_labels_one_name 1 SCI"
    by (simp add: balanced_and_encoded_def two_labels_one_name_sampled two_labels_one_name_retained)
  moreover have "enough_rows frame_one_class 0"
    by (simp add: enough_rows_def frame_one_class_def group_of_def)
  moreover have "labels_match_names frame_one_class"
    by (simp add: labels_match_names_def frame_one_class_def)
  moreover have "\<not> balanced_and_encoded compile_plain (\<lambda>s. str_contains s SCI) []
      frame_one_class 0 SCI"
    by (simp add: balanced_and_encoded_def one_class_sampled one_class_retained)
  moreover have "enough_rows [] 1" "labels_match_names []"
    by (simp_all add: enough_rows_def labels_match_names_def)
  moreover have "\<not> balanced_and_encoded compile_plain (\<lambda>s. str_contains s SCI) [] [] 1 SCI"
    by (simp add: balanced_and_encoded_def empty_frame_sampled)
  moreover have "enough_rows frame_one_class 1"
    by (simp add: enough_rows_def frame_one_class_def group_of_def)
  moreover have "\<not> balanced_and_encoded compile_plain (\<lambda>s. str_contains s PAREN) []
      frame_one_class 1 PAREN"
    by (simp add: balanced_and_encoded_def paren_sampled)
  ultimately show ?thesis
    using two_labels_one_name_sampled two_labels_one_name_retained
      one_class_sampled one_class_retained empty_frame_sampled paren_sampled
    by blast
qed

section \<open>Properties of the training loop\<close>

text \<open>What one epoch does to the names of the cell, when it does not raise.\<close>

lemma epoch_body_cases:
  assumes "epoch_body cfg epoch s = Inr (f, s')"
  obtains (improved) v where "history s' = history s @ [v]" "best_val_acc s < v"
      "best_val_acc s' = v" "best_model s' = Some (state_dict (model_ref cfg))"
      "patience s' = Some 0" "f = Continue"
  | (stalled) v p where "history s' = history s @ [v]" "\<not> best_val_acc s < v"
      "best_val_acc s' = best_val_acc s" "best_model s' = best_model s"
      "patience s = Some p" "patience s' = Some (p + 1)" "(f = Break) = (PATIENCE < p + 1)"
  using assms unfolding epoch_body_def Let_def
  by (auto split: prod.splits sum.splits if_splits option.splits)

lemma run_epochs_history:
  "run_epochs cfg epochs s = Inr s' \<Longrightarrow> length (history s') \<le> length (history s) + length epochs"
proof (induction epochs arbitrary: s)
  case Nil
  then show ?case by simp
next
  case (Cons epoch epochs)
  from Cons.prems obtain f s1 where b: "epoch_body cfg epoch s = Inr (f, s1)"
    by (auto split: sum.splits)
  have h: "length (history s1) = Suc (length (history s))"
    using b by (cases rule: epoch_body_cases) simp_all
  show ?case
  proof (cases f)
    case Continue
    then have "run_epochs cfg epochs s1 = Inr s'"
      using Cons.prems b by simp
    then show ?thesis
      using Cons.IH [of s1] h by simp
  next
    case Break
    then have "s' = s1"
      using Cons.prems b by simp
    then show ?thesis
      using h by simp
  qed
qed

lemma training_loop_epochs:
  "training_loop cfg h ost = Inr s \<Longrightarrow> length (history s) \<le> NUM_EPOCHS"
  using run_epochs_history [of cfg "[0 ..< NUM_EPOCHS]" "initial_state h ost" s]
  by (simp add: training_loop_def initial_state_def)

text \<open>The state dictionary, once taken, is the module's own storage.\<close>

lemma epoch_body_best_model:
  assumes "epoch_body cfg epoch s = Inr (f, s')"
    and "best_model s = None \<or> best_model s = Some (state_dict (model_ref cfg))"
  shows "best_model s' = None \<or> best_model s' = Some (state_dict (model_ref cfg))"
  using assms(1)
proof (cases rule: epoch_body_cases)
  case (improved v)
  then show ?thesis by simp
next
  case (stalled v p)
  then show ?thesis using assms(2) by simp
qed

lemma run_epochs_best_model:
  assumes "run_epochs cfg epochs s = Inr s'"
    and "best_model s = None \<or> best_model s = Some (state_dict (model_ref cfg))"
  shows "best_model s' = None \<or> best_model s' = Some (state_dict (model_ref cfg))"
  using assms
proof (induction epochs arbitrary: s)
  case Nil
  then show ?case by simp
next
  case (Cons epoch epochs)
  from Cons.prems(1) obtain f s1 where b: "epoch_body cfg epoch s = Inr (f, s1)"
    by (auto split: sum.splits)
  have i: "best_model s1 = None \<or> best_model s1 = Some (state_dict (model_ref cfg))"
    using b Cons.prems(2) by (rule epoch_body_best_model)
  show ?case
  proof (cases f)
    case Continue
    then have "run_epochs cfg epochs s1 = Inr s'"
      using Cons.prems b by simp
    then show ?thesis
      using i by (rule Cons.IH)
  next
    case Break
    then have "s' = s1"
      using Cons.prems b by simp
    then show ?thesis
      using i by simp
  qed
qed

lemma training_loop_aliased:
  assumes "training_loop cfg h ost = Inr s" and "best_model s = Some sd"
  shows "read_state_dict (heap s) sd = model (heap s (model_ref cfg))"
proof -
  have "best_model s = None \<or> best_model s = Some (state_dict (model_ref cfg))"
    using assms(1) unfolding training_loop_def
    by (rule run_epochs_best_model) (simp add: initial_state_def)
  then show ?thesis
    using assms(2) by (auto simp: state_dict_def)
qed

text \<open>The scalar \<open>best_val_acc\<close> does dominate every recorded accuracy.\<close>

lemma run_epochs_best_val_acc:
  assumes "run_epochs cfg epochs s = Inr s'" and "\<forall>v \<in> set (history s). v \<le> best_val_acc s"
  shows "\<forall>v \<in> set (history s'). v \<le> best_val_acc s'"
  using assms
proof (induction epochs arbitrary: s)
  case Nil
  then show ?case by simp
next
  case (Cons epoch epochs)
  from Cons.prems(1) obtain f s1 where b: "epoch_body cfg epoch s = Inr (f, s1)"
    by (auto split: sum.splits)
  have i: "\<forall>v \<in> set (history s1). v \<le> best_val_acc s1"
    using b
  proof (cases rule: epoch_body_cases)
    case (improved v)
    then show ?thesis using Cons.prems(2) by fastforce
  next
    case (stalled v p)
    then show ?thesis using Cons.prems(2) by fastforce
  qed
  show ?case
  proof (cases f)
    case Continue
    then have "run_epochs cfg epochs s1 = Inr s'"
      using Cons.prems b by simp
    then show ?thesis
      using i by (rule Cons.IH)
  next
    case Break
    then have "s' = s1"
      using Cons.prems b by simp
    then show ?thesis
      using i by simp
  qed
qed

subsection \<open>Two runs\<close>

text \<open>
  Two runs of the cell on the classifier with one input. In the first the optimizer
  leaves the parameters alone. In the second its first update makes the classifier right
  and every later update makes it wrong, as when training goes on after the best epoch
  and validation accuracy falls.
\<close>

definition stalled_config :: "(int, nat) loop_config" where
  "stalled_config =
     \<lparr>kernels = integer_kernels, model_ref = 0, train_loader = (\<lambda>epoch. one_sample_loader),
      val_loader = one_sample_loader, criterion = unit_loss, step = (\<lambda>ost ps b. (ost, ps))\<rparr>"

definition peak_config :: "(int, nat) loop_config" where
  "peak_config =
     \<lparr>kernels = integer_kernels, model_ref = 0, train_loader = (\<lambda>epoch. one_sample_loader),
      val_loader = one_sample_loader, criterion = unit_loss,
      step = (\<lambda>ost ps b. (Suc ost, one_input_layers (ost = 0)))\<rparr>"

definition one_input_heap :: "addr \<Rightarrow> int classifier" where
  "one_input_heap a = \<lparr>model = one_input_layers False, training = True\<rparr>"

lemma one_input_train_epoch:
  "train_epoch integer_kernels \<lparr>model = one_input_layers right, training = t\<rparr>
     one_sample_loader unit_loss stp ost =
     (Inr (1, if right then 1 else 0),
      \<lparr>model = snd (stp ost (one_input_layers right) [([1], 1)]), training = True\<rparr>,
      fst (stp ost (one_input_layers right) [([1], 1)]))"
  by (simp add: train_epoch_def train_mode_def call_def one_sample_loader_def one_input_forward
      unit_loss_def integer_kernels_sel integer_max_dim1_def count_correct_def
      split: prod.splits)

text \<open>
  Claim C2 says that an epoch whose validation accuracy does not exceed the best so far
  increments the patience counter. The cell never assigns the counter before the loop:
  when the first epoch's validation accuracy is 0, which does not exceed the initial
  \<open>best_val_acc\<close> of 0, the increment reads an unbound name and the cell ends with a
  \<open>NameError\<close>. (Once the counter is bound the loop does what the claim says, and a run
  that returns has gone through at most \<open>NUM_EPOCHS\<close> epochs, as the lemmas above show.)
\<close>

theorem training_loop_unbound_patience:
  "training_loop stalled_config one_input_heap 0 = Inl NameError"
  by (simp add: training_loop_def NUM_EPOCHS_def upt_rec initial_state_def epoch_body_def
      stalled_config_def one_input_heap_def one_input_evaluate one_input_train_epoch)

text \<open>
  Claim C3 says that \<open>best_model\<close> is a snapshot and that at the end of the loop it holds
  the parameters of the epoch with the best validation accuracy. In the second run the
  validation accuracy is 1 after the first epoch and 0 after each of the next six, where
  the loop stops early. \<open>best_val_acc\<close> is 1, but \<open>best_model\<close>, read at the end, shows
  the parameters of the last epoch, the same as the module itself; their validation
  accuracy is 0, and the parameters that reached 1 are gone.
\<close>

theorem best_model_follows_training:
  "map_sum id
     (\<lambda>s. (history s, best_val_acc s, map_option (read_state_dict (heap s)) (best_model s),
           model (heap s 0)))
     (training_loop peak_config one_input_heap 0) =
   Inr ([1, 0, 0, 0, 0, 0, 0], 1, Some (one_input_layers False), one_input_layers False) \<and>
   fst (evaluate integer_kernels \<lparr>model = one_input_layers False, training = False\<rparr>
     one_sample_loader unit_loss) = Inr (1, 0) \<and>
   fst (evaluate integer_kernels \<lparr>model = one_input_layers True, training = False\<rparr>
     one_sample_loader unit_loss) = Inr (1, 1)"
  by (simp add: training_loop_def NUM_EPOCHS_def upt_rec initial_state_def epoch_body_def
      peak_config_def one_input_heap_def one_input_evaluate one_input_train_epoch
      state_dict_def PATIENCE_def)

end
